theory Spec2Isabelle
  imports Main "HOL-Library.Multiset"
begin

section \<open>The Shared Counter Store\<close>

text \<open>
  The service talks to a Redis server through \<^verbatim>\<open>redis.asyncio\<close>. The server is an external
  collaborator; it is modelled at the interface the service uses: a keyspace and the
  commands \<^verbatim>\<open>GET\<close>, \<^verbatim>\<open>SET\<close>, \<^verbatim>\<open>DECR\<close>, each executed by the server as one indivisible
  step. The only values the service ever writes under its key are Python integers
  (\<^verbatim>\<open>amount: int\<close>, \<^verbatim>\<open>stock - 1\<close>, the result of \<^verbatim>\<open>DECR\<close>), so a stored value is an
  integer; integers are unbounded, as Python's are.
\<close>

type_synonym store = "string \<rightharpoonup> int"

definition GET :: "string \<Rightarrow> store \<Rightarrow> int option \<times> store" where
  "GET k s = (s k, s)"

definition SET :: "string \<Rightarrow> int \<Rightarrow> store \<Rightarrow> unit \<times> store" where
  "SET k v s = ((), s(k \<mapsto> v))"

text \<open>\<^verbatim>\<open>DECR\<close> takes a missing key as 0 and answers the new value.\<close>

definition DECR :: "string \<Rightarrow> store \<Rightarrow> int \<times> store" where
  "DECR k s = (let v = (case s k of None \<Rightarrow> 0 | Some v \<Rightarrow> v) - 1 in (v, s(k \<mapsto> v)))"

section \<open>The client connection\<close>

text \<open>
  Every \<^verbatim>\<open>await self.redis.<command>(...)\<close> is one round trip. A round trip either fails
  with a connectivity error (connection refused, socket timeout), in which case the
  command is not executed, or the server executes the command. The field \<open>faults\<close> lists
  what happens to the coming round trips, one entry each (\<open>True\<close>: the round trip fails);
  when the list is used up every round trip is answered.
\<close>

datatype error = ConnectionError

record redis =
  kv :: store
  faults :: "bool list"

definition connected :: "store \<Rightarrow> redis" where
  "connected s = \<lparr>kv = s, faults = []\<rparr>"

definition round_trip :: "(store \<Rightarrow> 'a \<times> store) \<Rightarrow> redis \<Rightarrow> (error + 'a) \<times> redis" where
  "round_trip cmd r =
     (case faults r of
        True # fs \<Rightarrow> (Inl ConnectionError, r\<lparr>faults := fs\<rparr>)
      | False # fs \<Rightarrow> (case cmd (kv r) of (a, s') \<Rightarrow> (Inr a, \<lparr>kv = s', faults = fs\<rparr>))
      | [] \<Rightarrow> (case cmd (kv r) of (a, s') \<Rightarrow> (Inr a, \<lparr>kv = s', faults = []\<rparr>)))"

definition redis_get :: "string \<Rightarrow> redis \<Rightarrow> (error + int option) \<times> redis" where
  "redis_get k = round_trip (GET k)"

definition redis_set :: "string \<Rightarrow> int \<Rightarrow> redis \<Rightarrow> (error + unit) \<times> redis" where
  "redis_set k v = round_trip (SET k v)"

text \<open>
  \<^verbatim>\<open>redis.eval(script, 1, key)\<close>: the server runs the whole script as one command, with
  \<^verbatim>\<open>KEYS[1] = key\<close>, and answers the script's return value.
\<close>

definition redis_eval :: "(string \<Rightarrow> store \<Rightarrow> int \<times> store) \<Rightarrow> string \<Rightarrow> redis \<Rightarrow> (error + int) \<times> redis" where
  "redis_eval script k = round_trip (script k)"

section \<open>InventoryService (app/inventory\_service.py)\<close>

definition STOCK_KEY :: string where
  "STOCK_KEY = ''product_stock''"

text \<open>
  \<^verbatim>\<open>int(stock) if stock else 0\<close>: the reply is \<^verbatim>\<open>None\<close> for a missing key and otherwise
  the decimal text of the stored integer, which is never the empty string.
\<close>

definition int_or_zero :: "int option \<Rightarrow> int" where
  "int_or_zero stock = (case stock of Some v \<Rightarrow> v | None \<Rightarrow> 0)"

definition purchase_item_unsafe :: "redis \<Rightarrow> (error + bool) \<times> redis" where
  "purchase_item_unsafe r =
     (case redis_get STOCK_KEY r of
        (Inl e, r1) \<Rightarrow> (Inl e, r1)
      | (Inr reply, r1) \<Rightarrow>
          (let stock = int_or_zero reply in
           if stock > 0 then
             (case redis_set STOCK_KEY (stock - 1) r1 of
                (Inl e, r2) \<Rightarrow> (Inl e, r2)
              | (Inr _, r2) \<Rightarrow> (Inr True, r2))
           else (Inr False, r1)))"

text \<open>
  The Lua script of \<^verbatim>\<open>purchase_item_safe\<close>, with \<open>k\<close> for \<^verbatim>\<open>KEYS[1]\<close>. In Lua the reply
  of \<^verbatim>\<open>GET\<close> for a missing key is \<^verbatim>\<open>false\<close>, so \<^verbatim>\<open>stock and tonumber(stock) > 0\<close> holds
  exactly for a stored value above zero.
\<close>

definition lua_script :: "string \<Rightarrow> store \<Rightarrow> int \<times> store" where
  "lua_script k s =
     (case GET k s of
        (stock, s1) \<Rightarrow>
          (if (case stock of None \<Rightarrow> False | Some v \<Rightarrow> v > 0) then
             (case DECR k s1 of (_, s2) \<Rightarrow> (1, s2))
           else (0, s1)))"

definition purchase_item_safe :: "redis \<Rightarrow> (error + bool) \<times> redis" where
  "purchase_item_safe r =
     (case redis_eval lua_script STOCK_KEY r of
        (Inl e, r1) \<Rightarrow> (Inl e, r1)
      | (Inr result, r1) \<Rightarrow> (Inr (result \<noteq> 0), r1))"

definition reset_stock :: "int \<Rightarrow> redis \<Rightarrow> (error + unit) \<times> redis" where
  "reset_stock amount r = redis_set STOCK_KEY amount r"

definition get_stock :: "redis \<Rightarrow> (error + int) \<times> redis" where
  "get_stock r =
     (case redis_get STOCK_KEY r of
        (Inl e, r1) \<Rightarrow> (Inl e, r1)
      | (Inr stock, r1) \<Rightarrow> (Inr (int_or_zero stock), r1))"

section \<open>Calls as coroutines, and their interleaving\<close>

text \<open>
  A call of a purchase method is a coroutine: it runs until its next \<^verbatim>\<open>await\<close> and is
  resumed later, and other calls run in between. What the store sees of a call is its
  commands, so a call is cut at its round trips: \<^verbatim>\<open>purchase_item_unsafe\<close> is the
  \<^verbatim>\<open>GET\<close> with the check (lines 31 to 34), the \<^verbatim>\<open>asyncio.sleep\<close> during which it only
  holds its local \<^verbatim>\<open>stock\<close>, and the \<^verbatim>\<open>SET\<close> (lines 37, 38); \<^verbatim>\<open>purchase_item_safe\<close>
  is the one \<^verbatim>\<open>EVAL\<close>.
\<close>

datatype coroutine =
    Unsafe_entry
  | Unsafe_sleeping int
  | Safe_entry
  | Finished "error + bool"

fun resume :: "coroutine \<Rightarrow> redis \<Rightarrow> coroutine \<times> redis" where
  "resume Unsafe_entry r =
     (case redis_get STOCK_KEY r of
        (Inl e, r1) \<Rightarrow> (Finished (Inl e), r1)
      | (Inr reply, r1) \<Rightarrow>
          (let stock = int_or_zero reply in
           if stock > 0 then (Unsafe_sleeping stock, r1) else (Finished (Inr False), r1)))"
| "resume (Unsafe_sleeping stock) r =
     (case redis_set STOCK_KEY (stock - 1) r of
        (Inl e, r2) \<Rightarrow> (Finished (Inl e), r2)
      | (Inr _, r2) \<Rightarrow> (Finished (Inr True), r2))"
| "resume Safe_entry r =
     (case redis_eval lua_script STOCK_KEY r of
        (Inl e, r1) \<Rightarrow> (Finished (Inl e), r1)
      | (Inr result, r1) \<Rightarrow> (Finished (Inr (result \<noteq> 0)), r1))"
| "resume (Finished x) r = (Finished x, r)"

text \<open>
  A run of several calls against one store: the schedule names, step by step, the call
  that is resumed next. Every order in which the server can receive the commands of the
  calls is a schedule.
\<close>

fun interleave :: "nat list \<Rightarrow> redis \<times> coroutine list \<Rightarrow> redis \<times> coroutine list" where
  "interleave [] c = c"
| "interleave (i # sched) (r, ts) =
     (if i < length ts then
        (case resume (ts ! i) r of (t', r') \<Rightarrow> interleave sched (r', ts[i := t']))
      else interleave sched (r, ts))"

fun is_finished :: "coroutine \<Rightarrow> bool" where
  "is_finished (Finished _) = True"
| "is_finished _ = False"


text \<open>\<open>n\<close> calls one after the other, each finished before the next begins.\<close>

fun calls :: "nat \<Rightarrow> (redis \<Rightarrow> (error + 'a) \<times> redis) \<Rightarrow> redis \<Rightarrow> (error + 'a) list \<times> redis" where
  "calls 0 f r = ([], r)"
| "calls (Suc n) f r =
     (case f r of (x, r1) \<Rightarrow> (case calls n f r1 of (xs, r2) \<Rightarrow> (x # xs, r2)))"

section \<open>The endpoints (app/main.py)\<close>

datatype json = JBool bool | JInt int | JStr string

type_synonym body = "(string \<times> json) list"

text \<open>
  A handler returns a dict, raises \<^verbatim>\<open>HTTPException\<close>, or lets an exception of the store
  client escape.
\<close>

datatype outcome = Return body | HTTPException nat string | Unhandled error

text \<open>
  The status the framework answers with: 200 for a returned dict, the exception's
  \<^verbatim>\<open>status_code\<close> for an \<^verbatim>\<open>HTTPException\<close>, 500 for an exception that escapes the handler.
\<close>

fun status_code :: "outcome \<Rightarrow> nat" where
  "status_code (Return _) = 200"
| "status_code (HTTPException code _) = code"
| "status_code (Unhandled _) = 500"

definition client_error_class :: "nat \<Rightarrow> bool" where
  "client_error_class code = (400 \<le> code \<and> code < 500)"

definition server_error_class :: "nat \<Rightarrow> bool" where
  "server_error_class code = (500 \<le> code \<and> code < 600)"

text \<open>Decimal text of an integer, as an f-string prints it.\<close>

fun str_nat :: "nat \<Rightarrow> string" where
  "str_nat n =
     (if n < 10 then [''0123456789'' ! n]
      else str_nat (n div 10) @ [''0123456789'' ! (n mod 10)])"

definition str_int :: "int \<Rightarrow> string" where
  "str_int i = (if i < 0 then CHR ''-'' # str_nat (nat (- i)) else str_nat (nat i))"

definition get_stock_endpoint :: "redis \<Rightarrow> outcome \<times> redis" where
  "get_stock_endpoint r =
     (case get_stock r of
        (Inl e, r1) \<Rightarrow> (Unhandled e, r1)
      | (Inr stock, r1) \<Rightarrow> (Return [(''current_stock'', JInt stock)], r1))"

text \<open>The query parameter \<^verbatim>\<open>amount: int = 50\<close>: \<open>None\<close> when the request leaves it out.\<close>

definition reset_stock_endpoint :: "int option \<Rightarrow> redis \<Rightarrow> outcome \<times> redis" where
  "reset_stock_endpoint q r =
     (let amount = (case q of None \<Rightarrow> 50 | Some a \<Rightarrow> a) in
      case reset_stock amount r of
        (Inl e, r1) \<Rightarrow> (Unhandled e, r1)
      | (Inr _, r1) \<Rightarrow>
          (Return [(''message'', JStr (''Stock reset to '' @ str_int amount)),
                   (''new_stock'', JInt amount)], r1))"

definition purchase_unsafe :: "redis \<Rightarrow> outcome \<times> redis" where
  "purchase_unsafe r =
     (case purchase_item_unsafe r of
        (Inl e, r1) \<Rightarrow> (Unhandled e, r1)
      | (Inr success, r1) \<Rightarrow>
          (if \<not> success then (HTTPException 400 ''Out of stock'', r1)
           else (Return [(''success'', JBool True), (''method'', JStr ''unsafe'')], r1)))"

definition purchase_safe :: "redis \<Rightarrow> outcome \<times> redis" where
  "purchase_safe r =
     (case purchase_item_safe r of
        (Inl e, r1) \<Rightarrow> (Unhandled e, r1)
      | (Inr success, r1) \<Rightarrow>
          (if \<not> success then (HTTPException 400 ''Out of stock'', r1)
           else (Return [(''success'', JBool True), (''method'', JStr ''safe'')], r1)))"

section \<open>The harness (scripts/attack.py)\<close>

definition CONCURRENT_USERS :: nat where
  "CONCURRENT_USERS = 500"

definition INITIAL_STOCK :: int where
  "INITIAL_STOCK = 50"

text \<open>
  What a request of the harness meets: a response with its status and, when it is JSON,
  its body, or an exception of the HTTP client (connection refused, timeout).
\<close>

datatype http = Response nat "body option" | ClientFailure

fun make_purchase :: "http \<Rightarrow> nat" where
  "make_purchase (Response status _) = status"
| "make_purchase ClientFailure = 500"

text \<open>
  \<open>run_attack\<close> takes what the outside gives it: the response to the reset, to the
  \<open>i\<close>-th purchase, to the final stock query, and the measured duration. \<open>None\<close> is an
  exception leaving \<open>run_attack\<close>: only \<open>make_purchase\<close> catches.
\<close>

definition run_attack :: "http \<Rightarrow> (nat \<Rightarrow> http) \<Rightarrow> http \<Rightarrow> 'd \<Rightarrow> (nat \<times> json \<times> 'd) option" where
  "run_attack reset_response purchase_response stock_response duration =
     (case reset_response of
        ClientFailure \<Rightarrow> None
      | Response _ _ \<Rightarrow>
          (let results = map (\<lambda>i. make_purchase (purchase_response i)) [0..<CONCURRENT_USERS] in
           case stock_response of
             ClientFailure \<Rightarrow> None
           | Response _ None \<Rightarrow> None
           | Response _ (Some data) \<Rightarrow>
               (case map_of data ''current_stock'' of
                  None \<Rightarrow> None
                | Some final_stock \<Rightarrow>
                    (let successful = count_list results 200 in
                     Some (successful, final_stock, duration)))))"

section \<open>The invariant of the safe path\<close>

text \<open>
  A pool of calls of \<open>purchase_item_safe\<close>, each not yet started or finished.
\<close>

definition safe_pool :: "coroutine list \<Rightarrow> bool" where
  "safe_pool ts = list_all (\<lambda>t. t = Safe_entry \<or> is_finished t) ts"



section \<open>Properties\<close>

subsection \<open>The methods over a connection without faults\<close>

lemma round_trip_connected:
  "round_trip cmd (connected s) = (Inr (fst (cmd s)), connected (snd (cmd s)))"
  by (simp add: round_trip_def connected_def split: prod.splits)


lemma get_stock_connected:
  "get_stock (connected s) = (Inr (int_or_zero (s STOCK_KEY)), connected s)"
  by (simp add: get_stock_def redis_get_def round_trip_connected GET_def)

lemma purchase_item_safe_connected:
  "purchase_item_safe (connected s) =
     (case s STOCK_KEY of
        None \<Rightarrow> (Inr False, connected s)
      | Some v \<Rightarrow> if 0 < v then (Inr True, connected (s(STOCK_KEY \<mapsto> v - 1)))
                  else (Inr False, connected s))"
  by (simp add: purchase_item_safe_def redis_eval_def round_trip_connected lua_script_def
      GET_def DECR_def Let_def split: option.splits)

lemma purchase_item_unsafe_connected:
  "purchase_item_unsafe (connected s) =
     (case s STOCK_KEY of
        None \<Rightarrow> (Inr False, connected s)
      | Some v \<Rightarrow> if 0 < v then (Inr True, connected (s(STOCK_KEY \<mapsto> v - 1)))
                  else (Inr False, connected s))"
  by (simp add: purchase_item_unsafe_def redis_get_def redis_set_def round_trip_connected
      GET_def SET_def int_or_zero_def Let_def split: option.splits)

lemma reset_stock_connected:
  "reset_stock a (connected s) = (Inr (), connected (s(STOCK_KEY \<mapsto> a)))"
  by (simp add: reset_stock_def redis_set_def round_trip_connected SET_def)

lemma kv_round_trip_GET: "kv (snd (round_trip (GET k) r)) = kv r"
  by (simp add: round_trip_def GET_def split: list.splits bool.splits)

subsection \<open>The coroutines are the methods\<close>

lemma resume_unsafe_uninterrupted:
  "(case resume Unsafe_entry r of (t, r1) \<Rightarrow> resume t r1) =
     (Finished (fst (purchase_item_unsafe r)), snd (purchase_item_unsafe r))"
  by (simp add: purchase_item_unsafe_def Let_def split: prod.splits sum.splits)

lemma resume_safe:
  "resume Safe_entry r = (Finished (fst (purchase_item_safe r)), snd (purchase_item_safe r))"
  by (simp add: purchase_item_safe_def split: prod.splits sum.splits)


text \<open>
  The model shows the race of the unsafe method: two calls against a stock of one, both
  reading before either writes, both succeed; one after the other, only the first does.
\<close>

lemma unsafe_interleaving_oversells:
  "interleave [0, 1, 0, 1] (connected [STOCK_KEY \<mapsto> 1], [Unsafe_entry, Unsafe_entry])
     = (connected [STOCK_KEY \<mapsto> 0], [Finished (Inr True), Finished (Inr True)])"
  by (simp add: redis_get_def redis_set_def round_trip_connected GET_def SET_def int_or_zero_def)

lemma unsafe_uninterleaved_sells_once:
  "interleave [0, 0, 1, 1] (connected [STOCK_KEY \<mapsto> 1], [Unsafe_entry, Unsafe_entry])
     = (connected [STOCK_KEY \<mapsto> 0], [Finished (Inr True), Finished (Inr False)])"
  by (simp add: redis_get_def redis_set_def round_trip_connected GET_def SET_def int_or_zero_def)

subsection \<open>Calls one after the other\<close>

lemma calls_fixed_point:
  "f r = (x, r) \<Longrightarrow> calls n f r = (replicate n x, r)"
  by (induction n) simp_all

lemma calls_reset_fixed:
  "calls n (reset_stock v) (connected (s(STOCK_KEY \<mapsto> v)))
     = (replicate n (Inr ()), connected (s(STOCK_KEY \<mapsto> v)))"
  by (rule calls_fixed_point) (simp add: reset_stock_connected)

lemma calls_reset_connected:
  "snd (calls (Suc n) (reset_stock v) (connected s)) = connected (s(STOCK_KEY \<mapsto> v))"
  by (simp add: reset_stock_connected calls_reset_fixed)

lemma purchase_item_safe_keeps_non_negative:
  assumes "kv r STOCK_KEY = Some v" and "0 \<le> v"
  shows "\<exists>w. kv (snd (purchase_item_safe r)) STOCK_KEY = Some w \<and> 0 \<le> w"
  using assms
  by (auto simp: purchase_item_safe_def redis_eval_def round_trip_def lua_script_def
      GET_def DECR_def Let_def split: list.splits bool.splits)

lemma calls_safe_non_negative:
  "kv r STOCK_KEY = Some v \<Longrightarrow> 0 \<le> v \<Longrightarrow>
   \<exists>w. kv (snd (calls n purchase_item_safe r)) STOCK_KEY = Some w \<and> 0 \<le> w"
proof (induction n arbitrary: r v)
  case 0
  then show ?case by simp
next
  case (Suc n)
  obtain w where w: "kv (snd (purchase_item_safe r)) STOCK_KEY = Some w" "0 \<le> w"
    using purchase_item_safe_keeps_non_negative [OF Suc.prems] by blast
  from Suc.IH [OF w] show ?case
    by (simp add: case_prod_beta)
qed

subsection \<open>Interleaved safe calls\<close>

lemma resume_safe_pool_keeps_non_negative:
  assumes "t = Safe_entry \<or> is_finished t" and "kv r STOCK_KEY = Some v" and "0 \<le> v"
  shows "\<exists>w. kv (snd (resume t r)) STOCK_KEY = Some w \<and> 0 \<le> w"
proof (cases t)
  case Safe_entry
  with purchase_item_safe_keeps_non_negative [OF assms(2,3)] show ?thesis
    by (simp add: resume_safe del: resume.simps)
qed (use assms in auto)

lemma resume_safe_pool_closed:
  "t = Safe_entry \<or> is_finished t \<Longrightarrow> is_finished (fst (resume t r))"
  by (cases t) (auto split: prod.splits sum.splits)

lemma safe_pool_update:
  "safe_pool ts \<Longrightarrow> i < length ts \<Longrightarrow> safe_pool (ts[i := fst (resume (ts ! i) r)])"
  unfolding safe_pool_def list_all_iff
  by (metis (mono_tags, lifting) insert_iff nth_mem resume_safe_pool_closed set_update_subset_insert subsetD)

lemma interleave_safe_non_negative:
  "safe_pool ts \<Longrightarrow> kv r STOCK_KEY = Some v \<Longrightarrow> 0 \<le> v \<Longrightarrow>
   \<exists>w. kv (fst (interleave sched (r, ts))) STOCK_KEY = Some w \<and> 0 \<le> w"
proof (induction sched arbitrary: r ts v)
  case Nil
  then show ?case by simp
next
  case (Cons i sched)
  show ?case
  proof (cases "i < length ts")
    case False
    with Cons.IH [OF Cons.prems] show ?thesis by simp
  next
    case True
    from Cons.prems(1) True have "ts ! i = Safe_entry \<or> is_finished (ts ! i)"
      by (simp add: safe_pool_def list_all_length)
    then obtain w where w: "kv (snd (resume (ts ! i) r)) STOCK_KEY = Some w" "0 \<le> w"
      using resume_safe_pool_keeps_non_negative Cons.prems(2,3) by blast
    from Cons.IH [OF safe_pool_update [OF Cons.prems(1) True, of r] w] True show ?thesis
      by (simp add: case_prod_beta)
  qed
qed








subsection \<open>Endpoints and harness\<close>

lemma purchase_safe_cases:
  "purchase_safe r =
     (case fst (purchase_item_safe r) of
        Inl e \<Rightarrow> Unhandled e
      | Inr success \<Rightarrow>
          if success then Return [(''success'', JBool True), (''method'', JStr ''safe'')]
          else HTTPException 400 ''Out of stock'',
      snd (purchase_item_safe r))"
  by (simp add: purchase_safe_def split: prod.splits sum.splits)

lemma purchase_unsafe_cases:
  "purchase_unsafe r =
     (case fst (purchase_item_unsafe r) of
        Inl e \<Rightarrow> Unhandled e
      | Inr success \<Rightarrow>
          if success then Return [(''success'', JBool True), (''method'', JStr ''unsafe'')]
          else HTTPException 400 ''Out of stock'',
      snd (purchase_item_unsafe r))"
  by (simp add: purchase_unsafe_def split: prod.splits sum.splits)

lemma count_list_map_cong:
  "(\<And>x. x \<in> set xs \<Longrightarrow> (f x = y) = (g x = y)) \<Longrightarrow> count_list (map f xs) y = count_list (map g xs) y"
  by (induction xs) auto

lemma count_list_map_filter:
  "count_list (map f xs) y = length (filter (\<lambda>x. f x = y) xs)"
  by (induction xs) auto

lemma run_attack_cong:
  "count_list (map (\<lambda>i. make_purchase (p i)) [0..<CONCURRENT_USERS]) 200
     = count_list (map (\<lambda>i. make_purchase (q i)) [0..<CONCURRENT_USERS]) 200
   \<Longrightarrow> run_attack a p g d = run_attack a q g d"
  by (simp add: run_attack_def Let_def split: http.splits option.splits)

subsection \<open>The stock decrement engine\<close>





text \<open>
  C3: for every store state, \<open>purchase_item_unsafe\<close> returns true if and only if the
  value it reads at entry (absent taken as 0) is greater than zero; when false it leaves
  the store unchanged; when true it writes that read value minus one. The write is of the
  value read, not a decrement of the value current at write time: resumed from its sleep
  with the local \<open>stock\<close> against any store \<open>s'\<close>, the call sets the key to \<open>stock - 1\<close>
  whatever \<open>s'\<close> holds. The two phases run without anything in between are the
  method itself.
\<close>

theorem purchase_item_unsafe_single_call:
  "(fst (purchase_item_unsafe (connected s)) = Inr True
      \<longleftrightarrow> 0 < (case s STOCK_KEY of None \<Rightarrow> 0 | Some v \<Rightarrow> v))
   \<and> (fst (purchase_item_unsafe (connected s)) = Inr False
      \<longleftrightarrow> \<not> 0 < (case s STOCK_KEY of None \<Rightarrow> 0 | Some v \<Rightarrow> v))
   \<and> (fst (purchase_item_unsafe (connected s)) = Inr True \<longrightarrow>
         snd (purchase_item_unsafe (connected s))
           = connected (s(STOCK_KEY \<mapsto> (case s STOCK_KEY of None \<Rightarrow> 0 | Some v \<Rightarrow> v) - 1)))
   \<and> (fst (purchase_item_unsafe (connected s)) = Inr False \<longrightarrow>
         snd (purchase_item_unsafe (connected s)) = connected s)
   \<and> resume Unsafe_entry (connected s) =
        (if 0 < (case s STOCK_KEY of None \<Rightarrow> 0 | Some v \<Rightarrow> v)
         then Unsafe_sleeping (case s STOCK_KEY of None \<Rightarrow> 0 | Some v \<Rightarrow> v)
         else Finished (Inr False), connected s)
   \<and> resume (Unsafe_sleeping stock) (connected s') =
        (Finished (Inr True), connected (s'(STOCK_KEY \<mapsto> stock - 1)))
   \<and> (case resume Unsafe_entry r of (t, r1) \<Rightarrow> resume t r1) =
        (Finished (fst (purchase_item_unsafe r)), snd (purchase_item_unsafe r))"
proof (intro conjI)
  show "(case resume Unsafe_entry r of (t, r1) \<Rightarrow> resume t r1) =
        (Finished (fst (purchase_item_unsafe r)), snd (purchase_item_unsafe r))"
    by (rule resume_unsafe_uninterrupted)
  show "resume Unsafe_entry (connected s) =
        (if 0 < (case s STOCK_KEY of None \<Rightarrow> 0 | Some v \<Rightarrow> v)
         then Unsafe_sleeping (case s STOCK_KEY of None \<Rightarrow> 0 | Some v \<Rightarrow> v)
         else Finished (Inr False), connected s)"
    by (simp add: redis_get_def round_trip_connected GET_def int_or_zero_def Let_def
        split: option.splits)
  show "resume (Unsafe_sleeping stock) (connected s') =
        (Finished (Inr True), connected (s'(STOCK_KEY \<mapsto> stock - 1)))"
    by (simp add: redis_set_def round_trip_connected SET_def)
qed (auto simp: purchase_item_unsafe_connected split: option.splits)

theorem purchase_item_unsafe_single_call_witness:
  "purchase_item_unsafe (connected [STOCK_KEY \<mapsto> 10]) = (Inr True, connected [STOCK_KEY \<mapsto> 9])
   \<and> purchase_item_unsafe (connected Map.empty) = (Inr False, connected Map.empty)
   \<and> resume Unsafe_entry (connected [STOCK_KEY \<mapsto> 10])
       = (Unsafe_sleeping 10, connected [STOCK_KEY \<mapsto> 10])
   \<and> resume (Unsafe_sleeping 10) (connected [STOCK_KEY \<mapsto> 7])
       = (Finished (Inr True), connected [STOCK_KEY \<mapsto> 9])"
  using purchase_item_unsafe_single_call [of "[STOCK_KEY \<mapsto> 10]" 10 "[STOCK_KEY \<mapsto> 7]"]
    purchase_item_unsafe_single_call [of "Map.empty" 0 "Map.empty"]
  by (simp add: prod_eq_iff)

text \<open>
  C4: non-negative stock is an invariant of \<open>purchase_item_safe\<close>: from a stored value
  \<open>v \<ge> 0\<close>, after any number of calls one after the other, and after any interleaved run
  of any number of calls, the stored value is not negative. This holds whatever round
  trips fail.
\<close>

theorem safe_purchases_keep_stock_non_negative:
  assumes "kv r STOCK_KEY = Some v" and "0 \<le> v"
  shows "(\<exists>w. kv (snd (calls n purchase_item_safe r)) STOCK_KEY = Some w \<and> 0 \<le> w)
    \<and> (\<exists>w. kv (fst (interleave sched (r, replicate m Safe_entry))) STOCK_KEY = Some w \<and> 0 \<le> w)"
proof
  show "\<exists>w. kv (snd (calls n purchase_item_safe r)) STOCK_KEY = Some w \<and> 0 \<le> w"
    using assms by (rule calls_safe_non_negative)
  have "safe_pool (replicate m Safe_entry)"
    by (simp add: safe_pool_def list_all_iff)
  then show "\<exists>w. kv (fst (interleave sched (r, replicate m Safe_entry))) STOCK_KEY = Some w \<and> 0 \<le> w"
    using assms by (rule interleave_safe_non_negative)
qed

theorem safe_purchases_keep_stock_non_negative_witness:
  "kv \<lparr>kv = [STOCK_KEY \<mapsto> 1], faults = [False, True]\<rparr> STOCK_KEY = Some 1 \<and> (0::int) \<le> 1
   \<and> (\<exists>w. kv (snd (calls 3 purchase_item_safe \<lparr>kv = [STOCK_KEY \<mapsto> 1], faults = [False, True]\<rparr>))
          STOCK_KEY = Some w \<and> 0 \<le> w)
   \<and> (\<exists>w. kv (fst (interleave [1, 0, 1] (\<lparr>kv = [STOCK_KEY \<mapsto> 1], faults = [False, True]\<rparr>,
          replicate 2 Safe_entry))) STOCK_KEY = Some w \<and> 0 \<le> w)"
proof -
  have h1: "kv \<lparr>kv = [STOCK_KEY \<mapsto> 1], faults = [False, True]\<rparr> STOCK_KEY = Some 1" by simp
  have h2: "(0::int) \<le> 1" by simp
  from safe_purchases_keep_stock_non_negative [OF h1 h2, of 3 "[1, 0, 1]" 2] h1 h2
  show ?thesis by blast
qed

text \<open>
  C5: for every non-negative \<open>v\<close> and every prior store state, calling \<open>reset_stock v\<close>
  any number of times in a row (once or more) leaves the stock at exactly \<open>v\<close>, a second
  reset changes nothing, and \<open>get_stock\<close> immediately after returns \<open>v\<close>.
\<close>

theorem reset_stock_idempotent:
  assumes "0 \<le> v"
  shows "snd (calls (Suc n) (reset_stock v) (connected s)) = connected (s(STOCK_KEY \<mapsto> v))
    \<and> snd (reset_stock v (snd (reset_stock v (connected s)))) = snd (reset_stock v (connected s))
    \<and> fst (get_stock (snd (calls (Suc n) (reset_stock v) (connected s)))) = Inr v"
  by (simp add: calls_reset_connected reset_stock_connected get_stock_connected int_or_zero_def
      del: calls.simps)

theorem reset_stock_idempotent_witness:
  "(0::int) \<le> 7
   \<and> snd (calls 3 (reset_stock 7) (connected [STOCK_KEY \<mapsto> 2])) = connected [STOCK_KEY \<mapsto> 7]
   \<and> fst (get_stock (snd (calls 3 (reset_stock 7) (connected [STOCK_KEY \<mapsto> 2])))) = Inr 7"
proof -
  have h: "(0::int) \<le> 7" by simp
  have "Suc 2 = 3" by simp
  with reset_stock_idempotent [OF h, of 2 "[STOCK_KEY \<mapsto> 2]"] show ?thesis
    by (simp add: get_stock_connected int_or_zero_def del: calls.simps)
qed

text \<open>
  C6: for every store state, \<open>get_stock\<close> returns 0 when the counter key is absent and
  the stored integer otherwise, and it leaves the store unchanged. The keyspace is
  untouched whatever happens to the round trip, also when it fails.
\<close>

theorem get_stock_reads_without_effect:
  "get_stock (connected s) =
     (Inr (case s STOCK_KEY of None \<Rightarrow> 0 | Some v \<Rightarrow> v), connected s)
   \<and> kv (snd (get_stock r)) = kv r"
proof
  show "get_stock (connected s) =
     (Inr (case s STOCK_KEY of None \<Rightarrow> 0 | Some v \<Rightarrow> v), connected s)"
    by (simp add: get_stock_connected int_or_zero_def)
next
  have "kv (snd (get_stock r)) = kv (snd (round_trip (GET STOCK_KEY) r))"
    by (simp add: get_stock_def redis_get_def split: prod.splits sum.splits)
  then show "kv (snd (get_stock r)) = kv r"
    by (simp add: kv_round_trip_GET)
qed


text \<open>
  C10: \<open>reset_stock\<close> and the reset endpoint do not validate the amount: for every integer
  \<open>a\<close>, negative ones included, the reset succeeds and sets the counter to \<open>a\<close>, and
  \<open>get_stock\<close> (also through its endpoint) immediately after returns \<open>a\<close>.
\<close>

theorem reset_stock_accepts_any_integer:
  "reset_stock a (connected s) = (Inr (), connected (s(STOCK_KEY \<mapsto> a)))
   \<and> get_stock (snd (reset_stock a (connected s))) = (Inr a, connected (s(STOCK_KEY \<mapsto> a)))
   \<and> reset_stock_endpoint (Some a) (connected s) =
       (Return [(''message'', JStr (''Stock reset to '' @ str_int a)), (''new_stock'', JInt a)],
        connected (s(STOCK_KEY \<mapsto> a)))
   \<and> get_stock_endpoint (snd (reset_stock_endpoint (Some a) (connected s))) =
       (Return [(''current_stock'', JInt a)], connected (s(STOCK_KEY \<mapsto> a)))"
  by (simp add: reset_stock_endpoint_def get_stock_endpoint_def reset_stock_connected
      get_stock_connected int_or_zero_def)

theorem reset_stock_accepts_any_integer_witness:
  "get_stock (snd (reset_stock (- 5) (connected Map.empty))) = (Inr (- 5), connected [STOCK_KEY \<mapsto> - 5])
   \<and> reset_stock_endpoint (Some (- 5)) (connected Map.empty) =
       (Return [(''message'', JStr ''Stock reset to -5''), (''new_stock'', JInt (- 5))],
        connected [STOCK_KEY \<mapsto> - 5])"
  using reset_stock_accepts_any_integer [of "- 5" Map.empty]
  by (simp add: str_int_def get_stock_connected int_or_zero_def)

subsection \<open>The service boundary and the harness\<close>

text \<open>
  C7: each purchase endpoint answers with the client-error status 400 exactly when the
  purchase method returns false, with a success response (200) exactly when it returns
  true, and lets a connectivity error of the store escape unchanged, which is answered
  in the server-error class, never with the status of out of stock. The endpoint
  leaves the store as the method left it.
\<close>

theorem purchase_endpoints_translate_outcomes:
  "(fst (purchase_safe r) = HTTPException 400 ''Out of stock''
      \<longleftrightarrow> fst (purchase_item_safe r) = Inr False)
   \<and> (client_error_class (status_code (fst (purchase_safe r)))
      \<longleftrightarrow> fst (purchase_item_safe r) = Inr False)
   \<and> (status_code (fst (purchase_safe r)) = 200 \<longleftrightarrow> fst (purchase_item_safe r) = Inr True)
   \<and> (fst (purchase_safe r) = Unhandled e \<longleftrightarrow> fst (purchase_item_safe r) = Inl e)
   \<and> (server_error_class (status_code (fst (purchase_safe r)))
      \<longleftrightarrow> (\<exists>e'. fst (purchase_item_safe r) = Inl e'))
   \<and> snd (purchase_safe r) = snd (purchase_item_safe r)
   \<and> (fst (purchase_unsafe r) = HTTPException 400 ''Out of stock''
      \<longleftrightarrow> fst (purchase_item_unsafe r) = Inr False)
   \<and> (client_error_class (status_code (fst (purchase_unsafe r)))
      \<longleftrightarrow> fst (purchase_item_unsafe r) = Inr False)
   \<and> (status_code (fst (purchase_unsafe r)) = 200 \<longleftrightarrow> fst (purchase_item_unsafe r) = Inr True)
   \<and> (fst (purchase_unsafe r) = Unhandled e \<longleftrightarrow> fst (purchase_item_unsafe r) = Inl e)
   \<and> (server_error_class (status_code (fst (purchase_unsafe r)))
      \<longleftrightarrow> (\<exists>e'. fst (purchase_item_unsafe r) = Inl e'))
   \<and> snd (purchase_unsafe r) = snd (purchase_item_unsafe r)"
  by (simp add: purchase_safe_cases purchase_unsafe_cases client_error_class_def
      server_error_class_def split: sum.splits)

theorem purchase_endpoints_translate_outcomes_witness:
  "fst (purchase_safe (connected [STOCK_KEY \<mapsto> 1]))
     = Return [(''success'', JBool True), (''method'', JStr ''safe'')]
   \<and> fst (purchase_safe (connected [STOCK_KEY \<mapsto> 0])) = HTTPException 400 ''Out of stock''
   \<and> fst (purchase_safe \<lparr>kv = [STOCK_KEY \<mapsto> 1], faults = [True]\<rparr>) = Unhandled ConnectionError
   \<and> fst (purchase_unsafe \<lparr>kv = [STOCK_KEY \<mapsto> 1], faults = [False, True]\<rparr>)
       = Unhandled ConnectionError
   \<and> status_code (fst (purchase_unsafe \<lparr>kv = [STOCK_KEY \<mapsto> 1], faults = [False, True]\<rparr>)) = 500"
proof -
  let ?down = "\<lparr>kv = [STOCK_KEY \<mapsto> 1], faults = [True]\<rparr>"
  let ?late = "\<lparr>kv = [STOCK_KEY \<mapsto> 1], faults = [False, True]\<rparr>"
  have a: "fst (purchase_item_safe ?down) = Inl ConnectionError"
    by (simp add: purchase_item_safe_def redis_eval_def round_trip_def)
  have b: "fst (purchase_item_unsafe ?late) = Inl ConnectionError"
    by (simp add: purchase_item_unsafe_def redis_get_def redis_set_def round_trip_def GET_def
        int_or_zero_def)
  have c: "fst (purchase_item_safe (connected [STOCK_KEY \<mapsto> 0])) = Inr False"
    by (simp add: purchase_item_safe_connected)
  have d: "fst (purchase_safe (connected [STOCK_KEY \<mapsto> 1]))
     = Return [(''success'', JBool True), (''method'', JStr ''safe'')]"
    by (simp add: purchase_safe_cases purchase_item_safe_connected)
  from purchase_endpoints_translate_outcomes [of ?down ConnectionError] a
  have 1: "fst (purchase_safe ?down) = Unhandled ConnectionError" by blast
  from purchase_endpoints_translate_outcomes [of ?late ConnectionError] b
  have 2: "fst (purchase_unsafe ?late) = Unhandled ConnectionError" by blast
  from purchase_endpoints_translate_outcomes [of "connected [STOCK_KEY \<mapsto> 0]" ConnectionError] c
  have 3: "fst (purchase_safe (connected [STOCK_KEY \<mapsto> 0])) = HTTPException 400 ''Out of stock''"
    by blast
  from 1 2 3 d show ?thesis by simp
qed

text \<open>
  C8, as the code has it: \<open>make_purchase\<close> reports an attempt that failed with a
  connectivity error as status 500, and \<open>run_attack\<close> never counts it as a success:
  \<open>successful\<close> is the number of attempts answered with 200. The result of \<open>run_attack\<close>
  holds no other count, so it is the same as if every failed attempt had been answered
  with out of stock (400): failures are not tracked separately.
\<close>

theorem run_attack_counts_successes_only:
  "make_purchase ClientFailure = 500
   \<and> run_attack a (\<lambda>i. if p i = ClientFailure then Response 400 b else p i) g d
       = run_attack a p g d
   \<and> (\<forall>n f d'. run_attack a p g d = Some (n, f, d') \<longrightarrow>
         n = length (filter (\<lambda>i. \<exists>b'. p i = Response 200 b') [0..<CONCURRENT_USERS]))"
proof (intro conjI allI impI)
  show "make_purchase ClientFailure = 500" by simp
  have "count_list (map (\<lambda>i. make_purchase (if p i = ClientFailure then Response 400 b else p i)) xs) 200
      = count_list (map (\<lambda>i. make_purchase (p i)) xs) 200" for xs
    by (rule count_list_map_cong) simp
  then show "run_attack a (\<lambda>i. if p i = ClientFailure then Response 400 b else p i) g d
       = run_attack a p g d"
    by (rule run_attack_cong)
next
  fix n f d'
  assume "run_attack a p g d = Some (n, f, d')"
  then have "n = count_list (map (\<lambda>i. make_purchase (p i)) [0..<CONCURRENT_USERS]) 200"
    by (auto simp: run_attack_def Let_def split: http.splits option.splits)
  also have "\<dots> = length (filter (\<lambda>i. make_purchase (p i) = 200) [0..<CONCURRENT_USERS])"
    by (rule count_list_map_filter)
  also have "(\<lambda>i. make_purchase (p i) = 200) = (\<lambda>i. \<exists>b'. p i = Response 200 b')"
  proof
    fix i show "(make_purchase (p i) = 200) = (\<exists>b'. p i = Response 200 b')"
      by (cases "p i") auto
  qed
  finally show "n = length (filter (\<lambda>i. \<exists>b'. p i = Response 200 b') [0..<CONCURRENT_USERS])" .
qed

theorem run_attack_counts_successes_only_witness:
  "run_attack (Response 200 None) (\<lambda>i. ClientFailure)
       (Response 200 (Some [(''current_stock'', JInt 50)])) (0::nat)
     = Some (0, JInt 50, 0)
   \<and> (0::nat) = length (filter (\<lambda>i. \<exists>b'. (ClientFailure::http) = Response 200 b')
                        [0..<CONCURRENT_USERS])
   \<and> run_attack (Response 200 None) (\<lambda>i. Response 400 None)
       (Response 200 (Some [(''current_stock'', JInt 50)])) (0::nat)
     = Some (0, JInt 50, 0)"
proof -
  let ?a = "Response 200 None"
  let ?g = "Response 200 (Some [(''current_stock'', JInt 50)])"
  have h: "run_attack ?a (\<lambda>i. ClientFailure) ?g (0::nat) = Some (0, JInt 50, 0)"
    by (simp add: run_attack_def Let_def count_list_map_filter)
  note t = run_attack_counts_successes_only [of ?a "\<lambda>i. ClientFailure" None ?g "0::nat"]
  from t h have 1: "(0::nat) = length (filter (\<lambda>i. \<exists>b'. (ClientFailure::http) = Response 200 b')
                        [0..<CONCURRENT_USERS])"
    by blast
  from t h have 2: "run_attack ?a (\<lambda>i. Response 400 None) ?g (0::nat) = Some (0, JInt 50, 0)"
    by simp
  from h 1 2 show ?thesis by blast
qed

text \<open>
  The claim C8 as the specification words it, that a failed attempt is tracked apart from
  out of stock in the aggregated counts, does not hold: a run in which attempt 0 fails with
  a connectivity error and a run in which every attempt is out of stock give the same
  result.
\<close>

theorem run_attack_merges_failures_counterexample:
  "run_attack (Response 200 None)
       (\<lambda>i. if i = 0 then ClientFailure
             else Response 400 (Some [(''detail'', JStr ''Out of stock'')]))
       (Response 200 (Some [(''current_stock'', JInt 0)])) (0::nat)
     = Some (0, JInt 0, 0)
   \<and> run_attack (Response 200 None)
       (\<lambda>i. Response 400 (Some [(''detail'', JStr ''Out of stock'')]))
       (Response 200 (Some [(''current_stock'', JInt 0)])) (0::nat)
     = Some (0, JInt 0, 0)"
  by (simp add: run_attack_def Let_def count_list_map_filter)

end
